theory Spec2Isabelle
  imports Main "HOL-Library.Word" "HOL-Library.Signed_Division"
begin

unbundle bit_operations_syntax

section \<open>Data model\<close>

text \<open>
  The text handed to \<open>base32Decode\<close> is any JavaScript string: a sequence of UTF-16 code
  units, \<^typ>\<open>16 word\<close>. The text of URIs, of property names and of the values stored
  in accounts is \<^typ>\<open>string\<close>. Bytes of a \<open>Uint8Array\<close> are \<^typ>\<open>8 word\<close>; the
  operands of the bitwise operators (\<open>ToInt32\<close>) are \<^typ>\<open>32 word\<close>.
\<close>

type_synonym byte = "8 word"
type_synonym int32 = "32 word"
type_synonym codeUnit = "16 word"
type_synonym jsString = "codeUnit list"

text \<open>The code units of a string literal.\<close>

definition js :: "string \<Rightarrow> jsString" where
  "js s = map of_char s"

text \<open>
  The faults of \<open>modules/totp.js\<close>: \<open>Error(`Invalid Base32 character: ${char}`)\<close>,
  a rejection of the platform's \<open>crypto.subtle\<close>, and \<open>Error('Invalid OTP Auth URI')\<close>.
\<close>

datatype error =
    InvalidBase32Character codeUnit
  | CryptoFailure
  | InvalidOtpAuthUri

text \<open>The number that a string of decimal digits denotes.\<close>

definition decimalValue :: "string \<Rightarrow> nat" where
  "decimalValue s = foldl (\<lambda>acc c. acc * 10 + (of_char c - 48)) 0 s"

section \<open>Base32 codec (\<open>modules/totp.js\<close>, \<open>base32Decode\<close>)\<close>

definition BASE32_CHARS :: jsString where
  "BASE32_CHARS = js ''ABCDEFGHIJKLMNOPQRSTUVWXYZ234567''"

text \<open>\<open>String.prototype.indexOf\<close> for a one-character needle: \<open>-1\<close> when absent.\<close>

fun indexOf :: "'a list \<Rightarrow> 'a \<Rightarrow> int" where
  "indexOf [] c = - 1"
| "indexOf (x # xs) c =
     (if x = c then 0
      else (let r = indexOf xs c in if r = - 1 then - 1 else r + 1))"

text \<open>
  The class \<open>\s\<close> of a regular expression: the white space and the line terminators
  of ECMAScript. These are tab, line feed, vertical tab, form feed, carriage return,
  space, no-break space, and beyond Latin-1 the space separators U+1680, U+2000 to
  U+200A, U+202F, U+205F and U+3000, the line and paragraph separators U+2028 and
  U+2029, and the byte order mark U+FEFF.
\<close>

definition isWhiteSpace :: "codeUnit \<Rightarrow> bool" where
  "isWhiteSpace c =
     (c \<in> set [0x0009, 0x000A, 0x000B, 0x000C, 0x000D, 0x0020, 0x00A0, 0x1680,
                0x2000, 0x2001, 0x2002, 0x2003, 0x2004, 0x2005, 0x2006, 0x2007,
                0x2008, 0x2009, 0x200A, 0x2028, 0x2029, 0x202F, 0x205F, 0x3000, 0xFEFF])"

text \<open>\<open>replace(/\s/g, '')\<close> and \<open>replace(/=+$/, '')\<close>; \<open>=\<close> is the code unit \<open>0x3D\<close>.\<close>

definition removeSpaces :: "jsString \<Rightarrow> jsString" where
  "removeSpaces s = filter (\<lambda>c. \<not> isWhiteSpace c) s"

definition removePadding :: "jsString \<Rightarrow> jsString" where
  "removePadding s = rev (dropWhile (\<lambda>c. c = 0x3D) (rev s))"

text \<open>
  The first two statements of \<open>base32Decode\<close>: the text the loop runs over.
  \<open>String.prototype.toUpperCase\<close> maps by the case tables of the Unicode version of the
  platform, and may lengthen the text (\<open>U+00DF\<close> becomes \<open>SS\<close>): it is the parameter
  \<open>toUpperCase\<close>.
\<close>

definition normalise :: "(jsString \<Rightarrow> jsString) \<Rightarrow> jsString \<Rightarrow> jsString" where
  "normalise toUpperCase encoded = removePadding (toUpperCase (removeSpaces encoded))"

text \<open>
  The \<open>for\<close> loop of \<open>base32Decode\<close>, over the characters still to read, with the loop
  variables \<open>bits\<close>, \<open>value\<close>, \<open>index\<close> and the array \<open>output\<close>. \<open>value\<close> is only used
  under \<open><<\<close>, \<open>|\<close> and \<open>>>>\<close>, so it is a 32-bit word; a shift count is taken modulo 32; a
  store beyond the end of a typed array is ignored, as \<open>list_update\<close> does.
\<close>

fun decodeLoop :: "jsString \<Rightarrow> nat \<Rightarrow> int32 \<Rightarrow> nat \<Rightarrow> byte list \<Rightarrow> error + byte list" where
  "decodeLoop [] bits val index output = Inr output"
| "decodeLoop (c # cs) bits val index output =
     (let charIndex = indexOf BASE32_CHARS c in
      if charIndex = - 1 then Inl (InvalidBase32Character c)
      else
        (let val' = push_bit 5 val OR word_of_int charIndex;
             bits' = bits + 5
         in if bits' \<ge> 8
            then decodeLoop cs (bits' - 8) val' (index + 1)
                   (output[index := ucast (drop_bit ((bits' - 8) mod 32) val' AND 0xff)])
            else decodeLoop cs bits' val' index output))"

definition base32Decode :: "(jsString \<Rightarrow> jsString) \<Rightarrow> jsString \<Rightarrow> error + byte list" where
  "base32Decode toUpperCase encoded =
     (let encoded' = normalise toUpperCase encoded;
          len = length encoded';
          output = replicate (len * 5 div 8) (0 :: byte)
      in decodeLoop encoded' 0 0 0 output)"

text \<open>
  A \<open>toUpperCase\<close> that knows the strings of a table, for use at these strings only.
\<close>

definition upperCaseTable :: "(jsString \<times> jsString) list \<Rightarrow> jsString \<Rightarrow> jsString" where
  "upperCaseTable entries s = (case map_of entries s of Some u \<Rightarrow> u | None \<Rightarrow> s)"

section \<open>TOTP engine (\<open>modules/totp.js\<close>)\<close>

text \<open>
  A JavaScript number that holds an integer, or one of the three values that are not
  finite. Fractions are not modelled.
\<close>

datatype number = Finite int | PosInfinity | NegInfinity | NaN

subsection \<open>\<open>numberToBytes\<close>\<close>

text \<open>\<open>num & 0xff\<close>: \<open>ToInt32\<close> maps the values that are not finite to 0.\<close>

fun lowByte :: "number \<Rightarrow> byte" where
  "lowByte (Finite n) = word_of_int n"
| "lowByte _ = 0"

text \<open>\<open>Math.floor(num / 256)\<close>.\<close>

fun floorDiv256 :: "number \<Rightarrow> number" where
  "floorDiv256 (Finite n) = Finite (n div 256)"
| "floorDiv256 x = x"

text \<open>The loop \<open>for (let i = 7; i >= 0; i--)\<close>; the first argument is \<open>i + 1\<close>.\<close>

fun numberToBytesLoop :: "nat \<Rightarrow> number \<Rightarrow> byte list \<Rightarrow> byte list" where
  "numberToBytesLoop 0 num bytes = bytes"
| "numberToBytesLoop (Suc i) num bytes =
     numberToBytesLoop i (floorDiv256 num) (bytes[i := lowByte num])"

definition numberToBytes :: "number \<Rightarrow> byte list" where
  "numberToBytes num = numberToBytesLoop 8 num (replicate 8 0)"

subsection \<open>\<open>generateTOTP\<close>\<close>

text \<open>
  \<open>Math.floor(timestamp / 1000 / period)\<close> for an integer time stamp and an integer
  period. A division by zero gives a value that is not finite. (The two floating point
  divisions are exact enough for the floor to be that of the rational quotient as long
  as the time stamp is below \<open>2 ^ 52\<close> in magnitude.)
\<close>

definition stepCounter :: "int \<Rightarrow> int \<Rightarrow> number" where
  "stepCounter timestamp period =
     (if period = 0
      then (if 0 < timestamp then PosInfinity
            else if timestamp < 0 then NegInfinity else NaN)
      else Finite (timestamp div (1000 * period)))"

text \<open>
  \<open>hmac[i]\<close> under a bitwise operator: the byte as a 32-bit integer, and 0 for the
  \<open>undefined\<close> that a read outside the array gives.
\<close>

definition byteAt :: "byte list \<Rightarrow> int \<Rightarrow> int32" where
  "byteAt bytes i = (if 0 \<le> i \<and> i < int (length bytes) then ucast (bytes ! nat i) else 0)"

text \<open>Dynamic truncation: \<open>offset\<close> and \<open>binary\<close> of \<open>generateTOTP\<close>.\<close>

definition truncOffset :: "byte list \<Rightarrow> int32" where
  "truncOffset hmac = byteAt hmac (int (length hmac) - 1) AND 0x0f"

definition truncBinary :: "byte list \<Rightarrow> int32" where
  "truncBinary hmac =
     (let offset = uint (truncOffset hmac) in
        push_bit 24 (byteAt hmac offset AND 0x7f)
        OR push_bit 16 (byteAt hmac (offset + 1) AND 0xff)
        OR push_bit 8 (byteAt hmac (offset + 2) AND 0xff)
        OR (byteAt hmac (offset + 3) AND 0xff))"

text \<open>\<open>Number.prototype.toString\<close> on an integer: decimal digits, with a minus sign.\<close>

fun natToString :: "nat \<Rightarrow> string" where
  "natToString n =
     (if n < 10 then [''0123456789'' ! n]
      else natToString (n div 10) @ [''0123456789'' ! (n mod 10)])"

declare natToString.simps [simp del]

definition toString :: "int \<Rightarrow> string" where
  "toString n = (if n < 0 then CHR ''-'' # natToString (nat (- n)) else natToString (nat n))"

text \<open>
  \<open>String.prototype.padStart\<close> with a one-character filler. (The engine's limit on the
  length of a string is not modelled.)
\<close>

definition padStart :: "int \<Rightarrow> char \<Rightarrow> string \<Rightarrow> string" where
  "padStart targetLength c s = replicate (nat targetLength - length s) c @ s"

text \<open>
  \<open>const otp = binary % Math.pow(10, digits); return otp.toString().padStart(digits, '0')\<close>.
  The remainder \<open>%\<close> truncates (\<open>smod\<close>). For a negative \<open>digits\<close> the power is a
  fraction and the remainder a floating point number: its rendering is the parameter
  \<open>fracRem\<close>, and \<open>padStart\<close> with a negative length leaves it as it is.
\<close>

definition otpString :: "(int \<Rightarrow> int \<Rightarrow> string) \<Rightarrow> int32 \<Rightarrow> int \<Rightarrow> string" where
  "otpString fracRem binary digits =
     (if digits < 0 then fracRem (sint binary) digits
      else padStart digits (CHR ''0'') (toString (sint binary smod 10 ^ nat digits)))"

text \<open>
  \<open>generateTOTP\<close>. The keyed hash of the platform (\<open>crypto.subtle\<close>) is the parameter
  \<open>hmacSha1\<close>, and \<open>toUpperCase\<close> is passed on to \<open>base32Decode\<close>; \<open>period\<close>, \<open>digits\<close> and
  \<open>timestamp\<close> are the three options, integers here.
\<close>

definition generateTOTP ::
  "(jsString \<Rightarrow> jsString) \<Rightarrow> (byte list \<Rightarrow> byte list \<Rightarrow> error + byte list)
     \<Rightarrow> (int \<Rightarrow> int \<Rightarrow> string)
     \<Rightarrow> jsString \<Rightarrow> int \<Rightarrow> int \<Rightarrow> int \<Rightarrow> error + string" where
  "generateTOTP toUpperCase hmacSha1 fracRem secret period digits timestamp =
     (case base32Decode toUpperCase secret of
        Inl e \<Rightarrow> Inl e
      | Inr key \<Rightarrow>
          (let counter = stepCounter timestamp period;
               counterBytes = numberToBytes counter
           in case hmacSha1 key counterBytes of
                Inl e \<Rightarrow> Inl e
              | Inr hmac \<Rightarrow> Inr (otpString fracRem (truncBinary hmac) digits)))"

subsection \<open>\<open>getRemainingSeconds\<close>\<close>

text \<open>
  \<open>period - (Math.floor(Date.now() / 1000) % period)\<close>; the second argument is the value
  of \<open>Date.now()\<close>. A remainder by zero is \<open>NaN\<close>.
\<close>

definition getRemainingSeconds :: "int \<Rightarrow> int \<Rightarrow> number" where
  "getRemainingSeconds period dateNow =
     (let now = dateNow div 1000 in
        if period = 0 then NaN else Finite (period - (now smod period)))"

text \<open>
  A keyed hash that answers every call with the same digest, the digest of the example
  in RFC 4226 (section 5.4), and a rendering of fractions that is never consulted for
  \<open>digits \<ge> 0\<close>.
\<close>

definition fixedDigest :: "byte list \<Rightarrow> byte list \<Rightarrow> byte list \<Rightarrow> error + byte list" where
  "fixedDigest digest key message = Inr digest"

definition rfcDigest :: "byte list" where
  "rfcDigest = [0x1f, 0x86, 0x98, 0x69, 0x0e, 0x02, 0xca, 0x16, 0x61, 0x85,
                0x50, 0xef, 0x7f, 0x19, 0xda, 0x8e, 0x94, 0x5b, 0x55, 0x5a]"

definition noRendering :: "int \<Rightarrow> int \<Rightarrow> string" where
  "noRendering x digits = []"

text \<open>
  The dynamic truncation as the specification words it, for a 20-byte digest:
  \<open>offset = digest[19] & 0x0F\<close>, the four bytes \<open>digest[offset..offset+3]\<close>, the first
  masked with \<open>0x7F\<close>, combined big-endian.
\<close>

definition dynamicTruncation :: "byte list \<Rightarrow> nat" where
  "dynamicTruncation digest =
     (let offset = unat (digest ! 19 AND 0x0F) in
        unat (digest ! offset AND 0x7F) * 2 ^ 24
        + unat (digest ! (offset + 1)) * 2 ^ 16
        + unat (digest ! (offset + 2)) * 2 ^ 8
        + unat (digest ! (offset + 3)))"

section \<open>Provisioning URI parser (\<open>modules/totp.js\<close>, \<open>parseOtpAuthUri\<close>)\<close>

text \<open>
  What the platform's \<open>new URL(uri)\<close> exposes of a parsed URI: \<open>protocol\<close>,
  \<open>hostname\<close>, \<open>pathname\<close>, and the pairs of \<open>searchParams\<close> in their order.
\<close>

record url =
  protocol :: string
  hostname :: string
  pathname :: string
  searchParams :: "(string \<times> string) list"

text \<open>\<open>URLSearchParams.has\<close> and \<open>URLSearchParams.get\<close> (the first value, \<open>null\<close> when absent).\<close>

definition paramsHas :: "(string \<times> string) list \<Rightarrow> string \<Rightarrow> bool" where
  "paramsHas params name = (name \<in> set (map fst params))"

definition paramsGet :: "(string \<times> string) list \<Rightarrow> string \<Rightarrow> string option" where
  "paramsGet params name = map_of params name"

text \<open>\<open>a || b\<close> for a string \<open>a\<close> that may be \<open>null\<close> or \<open>undefined\<close>: the empty string is falsy too.\<close>

definition orElse :: "string option \<Rightarrow> string \<Rightarrow> string" where
  "orElse a b = (case a of None \<Rightarrow> b | Some s \<Rightarrow> if s = [] then b else s)"

text \<open>\<open>String.prototype.split\<close> with a one-character separator.\<close>

fun splitLoop :: "char \<Rightarrow> string \<Rightarrow> string \<Rightarrow> string list" where
  "splitLoop sep part [] = [part]"
| "splitLoop sep part (c # cs) =
     (if c = sep then part # splitLoop sep [] cs else splitLoop sep (part @ [c]) cs)"

definition split :: "char \<Rightarrow> string \<Rightarrow> string list" where
  "split sep s = splitLoop sep [] s"

text \<open>
  The destructuring \<open>[issuer, account] = parts\<close>: the first two elements, \<open>undefined\<close>
  for a missing one.
\<close>

fun firstTwo :: "string list \<Rightarrow> string option \<times> string option" where
  "firstTwo (a # b # rest) = (Some a, Some b)"
| "firstTwo [a] = (Some a, None)"
| "firstTwo [] = (None, None)"

text \<open>
  \<open>parseInt(s, 10)\<close>: leading white space is skipped, a sign is read, then the longest
  run of decimal digits; no digit gives \<open>NaN\<close>. The white space of \<open>parseInt\<close> that a
  \<^typ>\<open>char\<close> can hold: tab, line feed, vertical tab, form feed, carriage return,
  space and no-break space.
\<close>

definition isSpace :: "char \<Rightarrow> bool" where
  "isSpace c =
     (c \<in> set [CHR 0x09, CHR 0x0A, CHR 0x0B, CHR 0x0C, CHR 0x0D, CHR 0x20, CHR 0xA0])"

definition isDigit :: "char \<Rightarrow> bool" where
  "isDigit c = (c \<in> set ''0123456789'')"

definition parseInt :: "string \<Rightarrow> number" where
  "parseInt s =
     (let t = dropWhile isSpace s;
          sign = (case t of c # r \<Rightarrow> if c = CHR ''-'' then - 1 else 1 | [] \<Rightarrow> (1 :: int));
          t' = (case t of c # r \<Rightarrow> if c = CHR ''-'' \<or> c = CHR ''+'' then r else t | [] \<Rightarrow> t);
          ds = takeWhile isDigit t'
      in if ds = [] then NaN else Finite (sign * int (decimalValue ds)))"

section \<open>Account registry (storage module)\<close>

text \<open>
  An account is a JavaScript object whose properties hold primitive values: a map from
  property names to values, where an absent name reads as \<open>undefined\<close>. The spread
  \<open>{...a, ...b}\<close> is \<open>a ++ b\<close>. The registry is the array stored under \<open>totpAccounts\<close>;
  every operation reads it, and returns the array it saves.
\<close>

datatype jsval = Str string | Num int | Bool bool | Null

type_synonym account = "string \<rightharpoonup> jsval"

text \<open>\<open>Array.prototype.findIndex\<close>: \<open>-1\<close> when no element satisfies the predicate.\<close>

fun findIndex :: "('a \<Rightarrow> bool) \<Rightarrow> 'a list \<Rightarrow> int" where
  "findIndex P [] = - 1"
| "findIndex P (x # xs) =
     (if P x then 0
      else (let r = findIndex P xs in if r = - 1 then - 1 else r + 1))"


definition updateAccount :: "jsval \<Rightarrow> account \<Rightarrow> account list \<Rightarrow> account list" where
  "updateAccount id' updates accounts =
     (let index = findIndex (\<lambda>acc. acc ''id'' = Some id') accounts in
        if index \<noteq> - 1
        then accounts[nat index := (accounts ! nat index) ++ updates]
        else accounts)"


text \<open>
  The object handed to \<open>importData\<close>, and built by \<open>exportData\<close>. Of its properties the
  import reads \<open>version\<close> and \<open>accounts\<close>; \<open>None\<close> is an absent property; \<open>accounts\<close>
  holds a primitive value or an array of accounts.
\<close>

datatype accountsField = Prim jsval | Arr "account list"

record exportFile =
  version :: "jsval option"
  exportedAt :: "jsval option"
  accounts :: "accountsField option"
  settings :: "account option"

text \<open>Truthiness, as \<open>!\<close> tests it: an array is truthy, even when empty.\<close>

fun truthy :: "jsval \<Rightarrow> bool" where
  "truthy (Str s) = (s \<noteq> [])"
| "truthy (Num n) = (n \<noteq> 0)"
| "truthy (Bool b) = b"
| "truthy Null = False"

fun truthyVersion :: "jsval option \<Rightarrow> bool" where
  "truthyVersion None = False"
| "truthyVersion (Some v) = truthy v"

fun truthyAccounts :: "accountsField option \<Rightarrow> bool" where
  "truthyAccounts None = False"
| "truthyAccounts (Some (Prim v)) = truthy v"
| "truthyAccounts (Some (Arr xs)) = True"

text \<open>
  The value \<open>importData\<close> resolves to: \<open>{success: true, imported, skipped}\<close> or
  \<open>{success: false, error: message}\<close>.
\<close>

datatype importResult = Success nat nat | Failure string

definition exportData :: "string \<Rightarrow> account \<Rightarrow> account list \<Rightarrow> exportFile" where
  "exportData isoNow storedSettings stored =
     \<lparr>version = Some (Str ''1.0''), exportedAt = Some (Str isoNow),
      accounts = Some (Arr stored), settings = Some storedSettings\<rparr>"

text \<open>
  \<open>importData\<close>, with the stored accounts before and after. A truthy \<open>accounts\<close> that
  is no array has no \<open>filter\<close> method: the \<open>TypeError\<close> is caught like the
  \<open>Error('Invalid data format')\<close>, and its message reported.
\<close>

definition importData :: "exportFile \<Rightarrow> account list \<Rightarrow> importResult \<times> account list" where
  "importData data existingAccounts =
     (if \<not> truthyVersion (version data) \<or> \<not> truthyAccounts (accounts data)
      then (Failure ''Invalid data format'', existingAccounts)
      else
        (case accounts data of
           Some (Arr incoming) \<Rightarrow>
             (let newAccounts =
                    filter (\<lambda>acc. \<not> list_ex (\<lambda>existing. existing ''id'' = acc ''id'')
                                       existingAccounts) incoming
              in (Success (length newAccounts) (length incoming - length newAccounts),
                  if length newAccounts > 0 then existingAccounts @ newAccounts
                  else existingAccounts))
         | _ \<Rightarrow> (Failure ''data.accounts.filter is not a function'', existingAccounts)))"

subsection \<open>Sequences of operations, and the invariant of the data model\<close>




definition ids :: "account list \<Rightarrow> jsval option list" where
  "ids stored = map (\<lambda>acc. acc ''id'') stored"









text \<open>An account object as the popup builds it, with the given identifier.\<close>

definition newAccount :: "string \<Rightarrow> account" where
  "newAccount i = [''id'' \<mapsto> Str i, ''issuer'' \<mapsto> Str ''Example'', ''digits'' \<mapsto> Num 6]"

section \<open>\<open>parseOtpAuthUri\<close>\<close>

record otpauth =
  type :: string
  issuer :: string
  account :: string
  secret :: string
  algorithm :: string
  digits :: number
  period :: number

text \<open>
  \<open>parseOtpAuthUri\<close>. The platform's \<open>new URL\<close> and \<open>decodeURIComponent\<close> are the
  parameters \<open>URL\<close> and \<open>decodeURIComponent\<close>, \<open>None\<close> where they throw; every fault
  inside the \<open>try\<close> block becomes \<open>Error('Invalid OTP Auth URI')\<close>.
\<close>

definition parseOtpAuthUri ::
  "(string \<Rightarrow> url option) \<Rightarrow> (string \<Rightarrow> string option) \<Rightarrow> string \<Rightarrow> error + otpauth" where
  "parseOtpAuthUri URL decodeURIComponent uri =
     (case URL uri of
        None \<Rightarrow> Inl InvalidOtpAuthUri
      | Some url \<Rightarrow>
          if protocol url \<noteq> ''otpauth:'' then Inl InvalidOtpAuthUri
          else
            (case decodeURIComponent (drop 1 (pathname url)) of
               None \<Rightarrow> Inl InvalidOtpAuthUri
             | Some path \<Rightarrow>
                 (let params = searchParams url;
                      fromPath = (if CHR '':'' \<in> set path then firstTwo (split (CHR '':'') path)
                                  else (Some [], Some path));
                      issuer' = (if paramsHas params ''issuer'' then paramsGet params ''issuer''
                                 else fst fromPath);
                      account' = snd fromPath
                  in Inr \<lparr>type = hostname url,
                          issuer = orElse issuer' ''Unknown'',
                          account = orElse account' ''Unknown'',
                          secret = orElse (paramsGet params ''secret'') [],
                          algorithm = orElse (paramsGet params ''algorithm'') ''SHA1'',
                          digits = parseInt (orElse (paramsGet params ''digits'') ''6''),
                          period = parseInt (orElse (paramsGet params ''period'') ''30'')\<rparr>)))"

text \<open>
  A \<open>new URL\<close> that knows the URIs of a table, and a \<open>decodeURIComponent\<close> for text
  without a percent sign, which it returns as it is.
\<close>

definition urlTable :: "(string \<times> url) list \<Rightarrow> string \<Rightarrow> url option" where
  "urlTable entries uri = map_of entries uri"

definition decodePlain :: "string \<Rightarrow> string option" where
  "decodePlain s = (if CHR ''%'' \<in> set s then None else Some s)"

section \<open>Concrete inputs\<close>

text \<open>
  Three provisioning URIs with the components \<open>new URL\<close> gives for them: the example of
  the specification, one whose \<open>digits\<close> and \<open>period\<close> are not numbers, and one whose
  label has two colons.
\<close>

definition uriExample :: string where
  "uriExample =
     ''otpauth://totp/Example:alice@example.com?secret=ABC123&issuer=Example&digits=6&period=30''"

definition urlExample :: url where
  "urlExample =
     \<lparr>protocol = ''otpauth:'', hostname = ''totp'', pathname = ''/Example:alice@example.com'',
      searchParams = [(''secret'', ''ABC123''), (''issuer'', ''Example''),
                      (''digits'', ''6''), (''period'', ''30'')]\<rparr>"

definition uriNotNumeric :: string where
  "uriNotNumeric = ''otpauth://totp/Example:alice?secret=ABC123&digits=abc&period=xyz''"

definition urlNotNumeric :: url where
  "urlNotNumeric =
     \<lparr>protocol = ''otpauth:'', hostname = ''totp'', pathname = ''/Example:alice'',
      searchParams = [(''secret'', ''ABC123''), (''digits'', ''abc''), (''period'', ''xyz'')]\<rparr>"

definition uriTwoColons :: string where
  "uriTwoColons = ''otpauth://totp/Example:alice:extra?secret=ABC123''"

definition urlTwoColons :: url where
  "urlTwoColons =
     \<lparr>protocol = ''otpauth:'', hostname = ''totp'', pathname = ''/Example:alice:extra'',
      searchParams = [(''secret'', ''ABC123'')]\<rparr>"

definition platformURL :: "string \<Rightarrow> url option" where
  "platformURL =
     urlTable [(uriExample, urlExample), (uriNotNumeric, urlNotNumeric),
               (uriTwoColons, urlTwoColons)]"

text \<open>
  A \<open>toUpperCase\<close> for the secrets used below: text without lower-case letters stays
  as it is, and \<open>U+00DF\<close> becomes \<open>SS\<close>.
\<close>

definition platformUpperCase :: "jsString \<Rightarrow> jsString" where
  "platformUpperCase =
     upperCaseTable [(js ''mz!y#=='', js ''MZ!Y#==''), (js ''=='', js ''==''),
                     (js ''JBSWY3DPEHPK3PXP'', js ''JBSWY3DPEHPK3PXP''),
                     (js ''MY'', js ''MY''), ([0xDF], js ''SS'')]"








definition noSettings :: account where
  "noSettings = Map.empty"

definition exportOfTwo :: exportFile where
  "exportOfTwo =
     exportData ''2024-01-01T00:00:00.000Z'' noSettings [newAccount ''a'', newAccount ''b'']"




section \<open>Properties of the Base32 codec\<close>

lemma indexOf_absent: "(indexOf xs c = - 1) = (c \<notin> set xs)"
proof (induction xs)
  case Nil
  show ?case by simp
next
  case (Cons x xs)
  have lower: "- 1 \<le> indexOf ys c" for ys
    by (induction ys) (auto simp: Let_def)
  from Cons lower [of xs] show ?case
    by (auto simp: Let_def)
qed

lemma decodeLoop_Inl:
  "(decodeLoop cs b v i out = Inl e) =
     (\<exists>c. find (\<lambda>c. c \<notin> set BASE32_CHARS) cs = Some c \<and> e = InvalidBase32Character c)"
proof (induction cs arbitrary: b v i out)
  case Nil
  show ?case by simp
next
  case (Cons c cs)
  show ?case
  proof (cases "c \<in> set BASE32_CHARS")
    case True
    then have "indexOf BASE32_CHARS c \<noteq> - 1"
      by (simp add: indexOf_absent)
    with True Cons show ?thesis
      by (simp add: Let_def)
  next
    case False
    then have "indexOf BASE32_CHARS c = - 1"
      by (simp add: indexOf_absent)
    with False show ?thesis
      by (auto simp: Let_def)
  qed
qed

lemma find_Some_ex: "(\<exists>c. find P xs = Some c) = (\<exists>c \<in> set xs. P c)"
  using find_None_iff [of P xs] by auto

lemma find_Some_member: "find P xs = Some x \<Longrightarrow> x \<in> set xs \<and> P x"
  by (induction xs) (auto split: if_splits)

lemma normalise_example: "normalise platformUpperCase (js ''m z!y#=='') = js ''MZ!Y#''"
  by code_simp

lemma normalise_blank: "normalise platformUpperCase (js '' = ='') = []"
  by code_simp

lemma normalise_nbsp: "normalise platformUpperCase (js ''MY'' @ [0xA0]) = js ''MY''"
  by code_simp

lemma normalise_sharp_s: "normalise platformUpperCase [0xDF] = js ''SS''"
  by code_simp

lemma first_outside: "find (\<lambda>c. c \<notin> set BASE32_CHARS) (js ''MZ!Y#'') = Some 0x21"
  by code_simp

lemma all_inside:
  "find (\<lambda>c. c \<notin> set BASE32_CHARS) (js ''MY'') = None"
  "find (\<lambda>c. c \<notin> set BASE32_CHARS) (js ''SS'') = None"
  by code_simp+

text \<open>
  C6. \<open>base32Decode\<close> fails exactly when the normalised input (white space removed,
  upper-cased, trailing \<open>=\<close> removed) has a character outside \<open>A-Z2-7\<close>; the fault then
  names the first such character; and an input that is empty after normalisation
  decodes to the empty byte sequence. This holds whatever the case tables of the
  platform are.
\<close>

theorem base32Decode_InvalidEncoding:
  "((\<exists>e. base32Decode toUpperCase encoded = Inl e) =
      (\<exists>c \<in> set (normalise toUpperCase encoded). c \<notin> set BASE32_CHARS))
   \<and> (base32Decode toUpperCase encoded = Inl e \<longrightarrow>
        (\<exists>c. e = InvalidBase32Character c
           \<and> find (\<lambda>c. c \<notin> set BASE32_CHARS) (normalise toUpperCase encoded) = Some c))
   \<and> (normalise toUpperCase encoded = [] \<longrightarrow> base32Decode toUpperCase encoded = Inr [])"
proof (intro conjI impI)
  have "(\<exists>e. base32Decode toUpperCase encoded = Inl e) =
      (\<exists>c. find (\<lambda>c. c \<notin> set BASE32_CHARS) (normalise toUpperCase encoded) = Some c)"
    unfolding base32Decode_def Let_def decodeLoop_Inl by blast
  then show "(\<exists>e. base32Decode toUpperCase encoded = Inl e) =
      (\<exists>c \<in> set (normalise toUpperCase encoded). c \<notin> set BASE32_CHARS)"
    by (simp only: find_Some_ex)
next
  assume "base32Decode toUpperCase encoded = Inl e"
  then show "\<exists>c. e = InvalidBase32Character c
           \<and> find (\<lambda>c. c \<notin> set BASE32_CHARS) (normalise toUpperCase encoded) = Some c"
    unfolding base32Decode_def Let_def decodeLoop_Inl by blast
next
  assume "normalise toUpperCase encoded = []"
  then show "base32Decode toUpperCase encoded = Inr []"
    by (simp add: base32Decode_def)
qed

theorem base32Decode_InvalidEncoding_witness:
  "0x21 \<in> set (normalise platformUpperCase (js ''m z!y#==''))
   \<and> base32Decode platformUpperCase (js ''m z!y#=='') = Inl (InvalidBase32Character 0x21)
   \<and> normalise platformUpperCase (js '' = ='') = []
   \<and> base32Decode platformUpperCase (js '' = ='') = Inr []
   \<and> isl (base32Decode platformUpperCase (js ''MY'' @ [0xA0])) = False
   \<and> isl (base32Decode platformUpperCase [0xDF]) = False"
proof -
  have found: "find (\<lambda>c. c \<notin> set BASE32_CHARS) (normalise platformUpperCase (js ''m z!y#==''))
               = Some 0x21"
    by (simp only: normalise_example first_outside)
  then have bad: "\<exists>c \<in> set (normalise platformUpperCase (js ''m z!y#=='')). c \<notin> set BASE32_CHARS"
    using find_Some_member by fastforce
  with base32Decode_InvalidEncoding [of platformUpperCase "js ''m z!y#==''"]
  obtain e where e: "base32Decode platformUpperCase (js ''m z!y#=='') = Inl e"
    by blast
  with base32Decode_InvalidEncoding [of platformUpperCase "js ''m z!y#==''" e]
  obtain c where c: "e = InvalidBase32Character c"
      "find (\<lambda>c. c \<notin> set BASE32_CHARS) (normalise platformUpperCase (js ''m z!y#=='')) = Some c"
    by blast
  from c(2) found have "c = 0x21"
    by simp
  with e c(1)
  have fails: "base32Decode platformUpperCase (js ''m z!y#=='') = Inl (InvalidBase32Character 0x21)"
    by simp
  have member: "0x21 \<in> set (normalise platformUpperCase (js ''m z!y#==''))"
    using found find_Some_member by fastforce
  have blank: "base32Decode platformUpperCase (js '' = ='') = Inr []"
    using base32Decode_InvalidEncoding [of platformUpperCase "js '' = =''"] normalise_blank
    by simp
  have "\<not> (\<exists>c \<in> set (normalise platformUpperCase (js ''MY'' @ [0xA0])). c \<notin> set BASE32_CHARS)"
    using all_inside(1) by (simp add: normalise_nbsp find_None_iff)
  with base32Decode_InvalidEncoding [of platformUpperCase "js ''MY'' @ [0xA0]"]
  have nbsp: "isl (base32Decode platformUpperCase (js ''MY'' @ [0xA0])) = False"
    by (cases "base32Decode platformUpperCase (js ''MY'' @ [0xA0])") auto
  have "\<not> (\<exists>c \<in> set (normalise platformUpperCase [0xDF]). c \<notin> set BASE32_CHARS)"
    using all_inside(2) by (simp add: normalise_sharp_s find_None_iff)
  with base32Decode_InvalidEncoding [of platformUpperCase "[0xDF]"]
  have sharp: "isl (base32Decode platformUpperCase [0xDF]) = False"
    by (cases "base32Decode platformUpperCase [0xDF]") auto
  from member fails blank nbsp sharp show ?thesis
    by (simp add: normalise_blank)
qed

section \<open>Properties of the TOTP engine\<close>

subsection \<open>The dynamic truncation computes the number of the specification\<close>

lemma or_bytes_int:
  fixes A B C D :: int
  shows "push_bit 24 (take_bit 7 A) OR push_bit 16 (take_bit 8 B)
           OR push_bit 8 (take_bit 8 C) OR take_bit 8 D
         = take_bit 7 A * 2 ^ 24 + take_bit 8 B * 2 ^ 16 + take_bit 8 C * 2 ^ 8 + take_bit 8 D"
proof -
  have 1: "push_bit 8 (take_bit 8 C) + take_bit 8 D = push_bit 8 (take_bit 8 C) OR take_bit 8 D"
    by (rule disjunctive_add) (auto simp: bit_simps)
  have 2: "push_bit 16 (take_bit 8 B) + (push_bit 8 (take_bit 8 C) OR take_bit 8 D)
           = push_bit 16 (take_bit 8 B) OR (push_bit 8 (take_bit 8 C) OR take_bit 8 D)"
    by (rule disjunctive_add) (auto simp: bit_simps)
  have 3: "push_bit 24 (take_bit 7 A) + (push_bit 16 (take_bit 8 B) OR (push_bit 8 (take_bit 8 C) OR take_bit 8 D))
           = push_bit 24 (take_bit 7 A) OR (push_bit 16 (take_bit 8 B) OR (push_bit 8 (take_bit 8 C) OR take_bit 8 D))"
    by (rule disjunctive_add) (auto simp: bit_simps)
  show ?thesis
    using 1 2 3 by (simp add: push_bit_eq_mult or.assoc)
qed

lemma uint_byte_and_7f: "uint ((ucast (a :: 8 word) :: 32 word) AND 0x7f) = take_bit 7 (uint a)"
proof -
  have "(ucast a :: 32 word) AND 0x7f = take_bit 7 (ucast a)"
    by (simp add: take_bit_eq_mask mask_eq_exp_minus_1)
  then show ?thesis
    by (simp add: unsigned_take_bit_eq uint_up_ucast is_up)
qed

lemma uint_byte_and_ff: "uint ((ucast (a :: 8 word) :: 32 word) AND 0xff) = take_bit 8 (uint a)"
proof -
  have "(ucast a :: 32 word) AND 0xff = take_bit 8 (ucast a)"
    by (simp add: take_bit_eq_mask mask_eq_exp_minus_1)
  then show ?thesis
    by (simp add: unsigned_take_bit_eq uint_up_ucast is_up)
qed

lemma take_bit_uint_byte: "take_bit 8 (uint (a :: 8 word)) = uint a"
  by (simp add: bintr_uint)


lemma sint_or_bytes:
  fixes a b c d :: "8 word"
  shows "sint (push_bit 24 ((ucast a :: 32 word) AND 0x7f)
               OR push_bit 16 ((ucast b :: 32 word) AND 0xff)
               OR push_bit 8 ((ucast c :: 32 word) AND 0xff)
               OR ((ucast d :: 32 word) AND 0xff))
         = take_bit 7 (uint a) * 2 ^ 24 + uint b * 2 ^ 16 + uint c * 2 ^ 8 + uint d"
    (is "sint ?W = ?E")
proof -
  have A: "0 \<le> take_bit 7 (uint a)" "take_bit 7 (uint a) < 2 ^ 7"
    using take_bit_int_less_exp [of 7 "uint a"] by simp_all
  have B: "0 \<le> uint b" "uint b < 2 ^ 8" "0 \<le> uint c" "uint c < 2 ^ 8" "0 \<le> uint d" "uint d < 2 ^ 8"
    using uint_bounded [of b] uint_bounded [of c] uint_bounded [of d] by simp_all
  have bounds: "0 \<le> ?E" "?E < 2 ^ 31"
    using A B by simp_all
  have p24: "take_bit 32 (push_bit 24 (take_bit 7 (uint a))) = push_bit 24 (take_bit 7 (uint a))"
    using A by (intro take_bit_int_eq_self) (simp_all add: push_bit_eq_mult)
  have p16: "take_bit 32 (push_bit 16 (take_bit 8 (uint b))) = push_bit 16 (take_bit 8 (uint b))"
    using B by (intro take_bit_int_eq_self) (simp_all add: push_bit_eq_mult bintr_uint)
  have p8: "take_bit 32 (push_bit 8 (take_bit 8 (uint c))) = push_bit 8 (take_bit 8 (uint c))"
    using B by (intro take_bit_int_eq_self) (simp_all add: push_bit_eq_mult bintr_uint)
  have "uint ?W = take_bit 32 (push_bit 24 (take_bit 7 (uint a)))
           OR take_bit 32 (push_bit 16 (take_bit 8 (uint b)))
           OR take_bit 32 (push_bit 8 (take_bit 8 (uint c))) OR take_bit 8 (uint d)"
    by (simp only: uint_or unsigned_push_bit_eq uint_byte_and_7f uint_byte_and_ff) simp
  also have "\<dots> = push_bit 24 (take_bit 7 (uint a)) OR push_bit 16 (take_bit 8 (uint b))
           OR push_bit 8 (take_bit 8 (uint c)) OR take_bit 8 (uint d)"
    by (simp only: p24 p16 p8)
  also have "\<dots> = ?E"
    using or_bytes_int [of "uint a" "uint b" "uint c" "uint d"]
    by (simp only: take_bit_uint_byte)
  finally have u: "uint ?W = ?E" .
  have "sint ?W = signed_take_bit 31 (uint ?W)"
    by (simp add: sint_uint)
  also have "\<dots> = ?E"
  proof -
    have "- (2 ^ 31) \<le> (0 :: int)" by simp
    then have "- (2 ^ 31) \<le> ?E" using bounds(1) by (rule order_trans)
    then show ?thesis
      unfolding u using bounds(2) by (rule signed_take_bit_int_eq_self)
  qed
  finally show ?thesis .
qed


lemma byteAt_in: "i < length bytes \<Longrightarrow> byteAt bytes (int i) = ucast (bytes ! i)"
  by (simp add: byteAt_def)

lemma uint_and_0f: "uint ((ucast (a :: 8 word) :: 32 word) AND 0x0f) = uint (a AND 0x0f)"
proof -
  have "(ucast a :: 32 word) AND 0x0f = take_bit 4 (ucast a)"
    by (simp add: take_bit_eq_mask mask_eq_exp_minus_1)
  moreover have "a AND 0x0f = take_bit 4 a"
    by (simp add: take_bit_eq_mask mask_eq_exp_minus_1)
  ultimately show ?thesis
    by (simp add: unsigned_take_bit_eq uint_up_ucast is_up)
qed

lemma nibble_bound: "unat ((a :: 8 word) AND 0x0f) < 16"
proof -
  have "a AND 0x0f = take_bit 4 a"
    by (simp add: take_bit_eq_mask mask_eq_exp_minus_1)
  then have "unat (a AND 0x0f) = take_bit 4 (unat a)"
    by (simp add: unsigned_take_bit_eq)
  then show ?thesis
    using take_bit_nat_less_exp [of 4 "unat a"] by simp
qed

lemma uint_and_7f: "uint ((a :: 8 word) AND 0x7f) = take_bit 7 (uint a)"
proof -
  have "a AND 0x7f = take_bit 7 a"
    by (simp add: take_bit_eq_mask mask_eq_exp_minus_1)
  then show ?thesis
    by (simp add: unsigned_take_bit_eq)
qed

lemma truncBinary_refines:
  assumes len: "length digest = 20"
  shows "sint (truncBinary digest) = int (dynamicTruncation digest)"
proof -
  define off where "off = unat (digest ! 19 AND 0x0f)"
  have off16: "off < 16"
    unfolding off_def by (rule nibble_bound)
  have "truncOffset digest = ucast (digest ! 19) AND 0x0f"
    using len byteAt_in [of 19 digest] by (simp add: truncOffset_def)
  then have "uint (truncOffset digest) = uint (digest ! 19 AND 0x0f)"
    by (simp only: uint_and_0f)
  then have uoff: "uint (truncOffset digest) = int off"
    by (simp add: off_def)
  have b0: "byteAt digest (int off) = ucast (digest ! off)"
    using off16 len by (intro byteAt_in) simp
  have b1: "byteAt digest (int off + 1) = ucast (digest ! (off + 1))"
    using off16 len byteAt_in [of "off + 1" digest] by (simp add: add.commute)
  have b2: "byteAt digest (int off + 2) = ucast (digest ! (off + 2))"
    using off16 len byteAt_in [of "off + 2" digest] by (simp add: add.commute)
  have b3: "byteAt digest (int off + 3) = ucast (digest ! (off + 3))"
    using off16 len byteAt_in [of "off + 3" digest] by (simp add: add.commute)
  have "sint (truncBinary digest) =
          take_bit 7 (uint (digest ! off)) * 2 ^ 24 + uint (digest ! (off + 1)) * 2 ^ 16
          + uint (digest ! (off + 2)) * 2 ^ 8 + uint (digest ! (off + 3))"
    unfolding truncBinary_def Let_def uoff b0 b1 b2 b3 by (rule sint_or_bytes)
  also have "\<dots> = int (dynamicTruncation digest)"
    unfolding dynamicTruncation_def Let_def off_def [symmetric]
    by (simp add: uint_and_7f [symmetric])
  finally show ?thesis .
qed

lemma dynamicTruncation_bound: "dynamicTruncation digest < 2 ^ 31"
proof -
  have byte: "\<And>b :: 8 word. unat b < 2 ^ 8"
  proof -
    fix b :: "8 word"
    show "unat b < 2 ^ 8" using unsigned_less [of b] by simp
  qed
  have "\<And>b :: 8 word. b AND 0x7f = take_bit 7 b"
    by (simp add: take_bit_eq_mask mask_eq_exp_minus_1)
  then have "\<And>b :: 8 word. unat (b AND 0x7f) = take_bit 7 (unat b)"
    by (simp add: unsigned_take_bit_eq)
  then have top: "\<And>b :: 8 word. unat (b AND 0x7f) < 2 ^ 7"
    using take_bit_nat_less_exp [of 7] by simp
  define off where "off = unat (digest ! 19 AND 0x0F)"
  show ?thesis
    unfolding dynamicTruncation_def Let_def off_def [symmetric]
    using top [of "digest ! off"] byte [of "digest ! (off + 1)"]
      byte [of "digest ! (off + 2)"] byte [of "digest ! (off + 3)"]
    by simp
qed

lemma digit_char: "n < 10 \<Longrightarrow> of_char (''0123456789'' ! n) = 48 + n"
proof -
  assume "n < 10"
  then have "n \<in> {0, 1, 2, 3, 4, 5, 6, 7, 8, 9}" by auto
  then show ?thesis by auto
qed

lemma decimalValue_snoc: "decimalValue (s @ [c]) = decimalValue s * 10 + (of_char c - 48)"
  by (simp add: decimalValue_def)

lemma natToString_value: "decimalValue (natToString n) = n"
proof (induction n rule: natToString.induct)
  case (1 n)
  show ?case
  proof (cases "n < 10")
    case True
    then show ?thesis
      by (subst natToString.simps) (simp add: decimalValue_def digit_char)
  next
    case False
    with 1 show ?thesis
      by (subst natToString.simps) (simp add: decimalValue_snoc digit_char)
  qed
qed

lemma natToString_digits: "set (natToString n) \<subseteq> set ''0123456789''"
proof (induction n rule: natToString.induct)
  case (1 n)
  have d: "\<And>k. k < 10 \<Longrightarrow> ''0123456789'' ! k \<in> set ''0123456789''"
    by (rule nth_mem) simp
  show ?case
  proof (cases "n < 10")
    case True
    then show ?thesis
      using d [of n] by (subst natToString.simps) simp
  next
    case False
    with 1 show ?thesis
      using d [of "n mod 10"] by (subst natToString.simps) simp
  qed
qed

lemma natToString_length: "0 < d \<Longrightarrow> n < 10 ^ d \<Longrightarrow> length (natToString n) \<le> d"
proof (induction n arbitrary: d rule: natToString.induct)
  case (1 n)
  show ?case
  proof (cases "n < 10")
    case True
    with 1(2) show ?thesis
      by (subst natToString.simps) simp
  next
    case False
    from False 1(3) have "1 < d"
      by (cases "d = 1") (use 1(2) in auto)
    then obtain d' where d': "d = Suc d'" "0 < d'"
      by (cases d) auto
    with 1(3) have "n div 10 < 10 ^ d'"
      by (simp add: less_mult_imp_div_less mult.commute)
    with 1(1) [OF False d'(2)] d'(1) False show ?thesis
      by (subst natToString.simps) simp
  qed
qed

lemma decimalValue_zeros: "decimalValue (replicate k (CHR ''0'') @ s) = decimalValue s"
proof -
  have "foldl (\<lambda>acc c. acc * 10 + (of_char c - 48)) 0 (replicate k (CHR ''0'')) = (0 :: nat)"
    by (induction k) simp_all
  then show ?thesis
    by (simp add: decimalValue_def)
qed

lemma padStart_length: "length s \<le> nat d \<Longrightarrow> length (padStart d c s) = nat d"
  by (simp add: padStart_def)

lemma otpString_nat:
  assumes "0 \<le> d" and "0 \<le> sint b"
  shows "otpString f b d = padStart d (CHR ''0'') (natToString (nat (sint b) mod 10 ^ nat d))"
proof -
  have "sint b smod 10 ^ nat d = sint b mod 10 ^ nat d"
    using assms(2) by (intro smod_mod_positive) simp_all
  moreover have "\<not> sint b mod 10 ^ nat d < 0"
    by (simp add: not_less)
  moreover have "nat (sint b mod 10 ^ nat d) = nat (sint b) mod 10 ^ nat d"
    using assms(2) by (simp add: nat_mod_distrib nat_power_eq)
  ultimately show ?thesis
    using assms(1) by (simp only: otpString_def toString_def not_less [symmetric] if_False)
qed

lemma stepCounter_zero_period: "numberToBytes (stepCounter ts 0) = replicate 8 0"
  by (simp add: stepCounter_def numberToBytes_def eval_nat_numeral)

lemma rfc_key: "base32Decode platformUpperCase (js ''JBSWY3DPEHPK3PXP'') = Inr [72, 101, 108, 108, 111, 33, 222, 173, 190, 239]"
  by code_simp

lemma rfc_binary: "truncBinary rfcDigest = 1357872921"
  by code_simp

lemma rfc_truncation: "dynamicTruncation rfcDigest = 1357872921"
  by (simp add: dynamicTruncation_def rfcDigest_def)

lemma rfc_otp6: "otpString noRendering 1357872921 6 = ''872921''"
  by (simp add: otpString_def padStart_def toString_def natToString.simps)

lemma rfc_otp0: "otpString noRendering 1357872921 0 = ''0''"
  by (simp add: otpString_def padStart_def toString_def natToString.simps
      signed_modulo_int_def)

lemma rfc_code: "generateTOTP platformUpperCase (fixedDigest rfcDigest) noRendering (js ''JBSWY3DPEHPK3PXP'') 30 6 59000
                 = Inr ''872921''"
  by (simp add: generateTOTP_def rfc_key fixedDigest_def rfc_binary rfc_otp6)

text \<open>
  C4. A successful \<open>generateTOTP\<close> with positive \<open>digits\<close>, over a keyed hash with 20-byte
  digests, returns exactly \<open>digits\<close> characters, all decimal digits, whose number is
  \<open>binary mod 10 ^ digits\<close>, where \<open>binary\<close> is the dynamic truncation of the digest as the
  specification words it, a number below \<open>2 ^ 31\<close>.
\<close>

theorem generateTOTP_code:
  assumes gen: "generateTOTP toUpperCase hmacSha1 fracRem sec per dig ts = Inr code"
    and pos: "0 < dig"
    and twenty: "\<And>key message digest. hmacSha1 key message = Inr digest \<Longrightarrow> length digest = 20"
  shows "\<exists>key digest. base32Decode toUpperCase sec = Inr key
           \<and> hmacSha1 key (numberToBytes (stepCounter ts per)) = Inr digest
           \<and> length code = nat dig
           \<and> set code \<subseteq> set ''0123456789''
           \<and> decimalValue code = dynamicTruncation digest mod 10 ^ nat dig
           \<and> dynamicTruncation digest < 2 ^ 31"
proof -
  from gen obtain key where key: "base32Decode toUpperCase sec = Inr key"
    by (auto simp: generateTOTP_def split: sum.splits)
  with gen obtain digest
    where digest: "hmacSha1 key (numberToBytes (stepCounter ts per)) = Inr digest"
      and code: "code = otpString fracRem (truncBinary digest) dig"
    by (auto simp: generateTOTP_def Let_def split: sum.splits)
  have len: "length digest = 20"
    using digest by (rule twenty)
  define binary where "binary = dynamicTruncation digest"
  have sint: "sint (truncBinary digest) = int binary"
    unfolding binary_def using len by (rule truncBinary_refines)
  define otp where "otp = binary mod 10 ^ nat dig"
  have code': "code = padStart dig (CHR ''0'') (natToString otp)"
    using pos sint by (simp add: code otpString_nat otp_def)
  have "0 < nat dig" using pos by simp
  moreover have "otp < 10 ^ nat dig" by (simp add: otp_def)
  ultimately have short: "length (natToString otp) \<le> nat dig"
    by (rule natToString_length)
  then have "length code = nat dig"
    unfolding code' by (rule padStart_length)
  moreover have "set code \<subseteq> set ''0123456789''"
    using natToString_digits [of otp] by (auto simp: code' padStart_def)
  moreover have "decimalValue code = otp"
    by (simp add: code' padStart_def decimalValue_zeros natToString_value)
  moreover have "binary < 2 ^ 31"
    unfolding binary_def by (rule dynamicTruncation_bound)
  ultimately show ?thesis
    using key digest by (auto simp: otp_def binary_def)
qed

theorem generateTOTP_code_witness:
  "generateTOTP platformUpperCase (fixedDigest rfcDigest) noRendering (js ''JBSWY3DPEHPK3PXP'') 30 6 59000 = Inr ''872921''
   \<and> (0 :: int) < 6
   \<and> length rfcDigest = 20
   \<and> length ''872921'' = nat 6
   \<and> decimalValue ''872921'' = dynamicTruncation rfcDigest mod 10 ^ nat 6
   \<and> dynamicTruncation rfcDigest = 1357872921"
proof -
  have twenty: "\<And>key message digest. fixedDigest rfcDigest key message = Inr digest
                  \<Longrightarrow> length digest = 20"
    by (auto simp: fixedDigest_def rfcDigest_def)
  have "\<exists>key digest. base32Decode platformUpperCase (js ''JBSWY3DPEHPK3PXP'') = Inr key
           \<and> fixedDigest rfcDigest key (numberToBytes (stepCounter 59000 30)) = Inr digest
           \<and> length ''872921'' = nat 6
           \<and> set ''872921'' \<subseteq> set ''0123456789''
           \<and> decimalValue ''872921'' = dynamicTruncation digest mod 10 ^ nat 6
           \<and> dynamicTruncation digest < 2 ^ 31"
    using rfc_code by (rule generateTOTP_code) (simp, rule twenty)
  then have "decimalValue ''872921'' = dynamicTruncation rfcDigest mod 10 ^ nat 6"
    by (auto simp: fixedDigest_def)
  moreover have "length rfcDigest = 20"
    by (simp add: rfcDigest_def)
  ultimately show ?thesis
    by (simp add: rfc_code rfc_truncation)
qed

text \<open>
  C1, as the code has it. \<open>generateTOTP\<close> checks neither \<open>digits\<close> nor \<open>period\<close>: whatever
  their values, it fails exactly when the secret does not decode or the keyed hash
  fails, with that fault. With \<open>digits = 0\<close> a successful call returns the string \<open>0\<close>,
  and with \<open>period = 0\<close> the hash is taken over eight zero bytes.
\<close>

theorem generateTOTP_no_parameter_check:
  "((generateTOTP toUpperCase hmacSha1 fracRem sec per dig ts = Inl e) =
      (base32Decode toUpperCase sec = Inl e
       \<or> (\<exists>key. base32Decode toUpperCase sec = Inr key
             \<and> hmacSha1 key (numberToBytes (stepCounter ts per)) = Inl e)))
   \<and> (generateTOTP toUpperCase hmacSha1 fracRem sec per 0 ts = Inr code \<longrightarrow> code = ''0'')
   \<and> numberToBytes (stepCounter ts 0) = replicate 8 0"
proof (intro conjI impI)
  show "(generateTOTP toUpperCase hmacSha1 fracRem sec per dig ts = Inl e) =
      (base32Decode toUpperCase sec = Inl e
       \<or> (\<exists>key. base32Decode toUpperCase sec = Inr key
             \<and> hmacSha1 key (numberToBytes (stepCounter ts per)) = Inl e))"
    by (auto simp: generateTOTP_def Let_def split: sum.splits)
next
  assume "generateTOTP toUpperCase hmacSha1 fracRem sec per 0 ts = Inr code"
  then obtain b where "code = otpString fracRem b 0"
    by (auto simp: generateTOTP_def Let_def split: sum.splits)
  then show "code = ''0''"
    by (simp add: otpString_def padStart_def toString_def natToString.simps
        signed_modulo_int_def)
next
  show "numberToBytes (stepCounter ts 0) = replicate 8 0"
    by (rule stepCounter_zero_period)
qed

lemma rfc_code0: "generateTOTP platformUpperCase (fixedDigest rfcDigest) noRendering (js ''JBSWY3DPEHPK3PXP'') 30 0 59000
                  = Inr ''0''"
  by (simp add: generateTOTP_def rfc_key fixedDigest_def rfc_binary rfc_otp0)

lemma rfc_code_period0:
  "generateTOTP platformUpperCase (fixedDigest rfcDigest) noRendering (js ''JBSWY3DPEHPK3PXP'') 0 6 59000 = Inr ''872921''"
  by (simp add: generateTOTP_def rfc_key fixedDigest_def rfc_binary rfc_otp6)

lemma rfc_code_negative_period:
  "generateTOTP platformUpperCase (fixedDigest rfcDigest) noRendering (js ''JBSWY3DPEHPK3PXP'') (- 30) 6 59000
   = Inr ''872921''"
  by (simp add: generateTOTP_def rfc_key fixedDigest_def rfc_binary rfc_otp6)

theorem generateTOTP_no_parameter_check_witness:
  "generateTOTP platformUpperCase (fixedDigest rfcDigest) noRendering (js ''JBSWY3DPEHPK3PXP'') (- 30) 0 59000 = Inr ''0''
   \<and> generateTOTP platformUpperCase (fixedDigest rfcDigest) noRendering (js ''JBSWY3DPEHPK3PXP'') (- 30) 0 59000
       \<noteq> Inl CryptoFailure"
proof -
  have "generateTOTP platformUpperCase (fixedDigest rfcDigest) noRendering (js ''JBSWY3DPEHPK3PXP'') (- 30) 0 59000
        \<noteq> Inl e" for e
    using generateTOTP_no_parameter_check
      [of platformUpperCase "fixedDigest rfcDigest" noRendering "js ''JBSWY3DPEHPK3PXP''" "- 30" 0 59000 e]
    by (simp add: rfc_key fixedDigest_def)
  then obtain code
    where code: "generateTOTP platformUpperCase (fixedDigest rfcDigest) noRendering (js ''JBSWY3DPEHPK3PXP'') (- 30) 0 59000
                 = Inr code"
    by (cases "generateTOTP platformUpperCase (fixedDigest rfcDigest) noRendering (js ''JBSWY3DPEHPK3PXP'') (- 30) 0 59000")
      auto
  with generateTOTP_no_parameter_check
      [of platformUpperCase "fixedDigest rfcDigest" noRendering "js ''JBSWY3DPEHPK3PXP''" "- 30" _ 59000 _ code]
  have "code = ''0''"
    by blast
  with code show ?thesis
    by simp
qed

text \<open>
  C1, as it is stated, fails: these calls have a valid secret and \<open>digits = 0\<close>,
  \<open>period = 0\<close> or \<open>period = - 30\<close>, and each returns a string.
\<close>

theorem generateTOTP_InvalidParameter_counterexample:
  "generateTOTP platformUpperCase (fixedDigest rfcDigest) noRendering (js ''JBSWY3DPEHPK3PXP'') 30 0 59000 = Inr ''0''
   \<and> generateTOTP platformUpperCase (fixedDigest rfcDigest) noRendering (js ''JBSWY3DPEHPK3PXP'') 0 6 59000
       = Inr ''872921''
   \<and> generateTOTP platformUpperCase (fixedDigest rfcDigest) noRendering (js ''JBSWY3DPEHPK3PXP'') (- 30) 6 59000
       = Inr ''872921''"
  using rfc_code0 rfc_code_period0 rfc_code_negative_period by simp

subsection \<open>Seconds remaining in the current step\<close>

text \<open>
  C7. For a positive period, and a clock at or after the epoch, \<open>getRemainingSeconds\<close>
  is \<open>period - (currentUnixSeconds mod period)\<close>, lies between 1 and \<open>period\<close>, and is a
  full period when the remainder is 0.
\<close>

theorem getRemainingSeconds_range:
  assumes "0 < per" and "0 \<le> dateNow"
  shows "getRemainingSeconds per dateNow = Finite (per - (dateNow div 1000) mod per)
         \<and> 1 \<le> per - (dateNow div 1000) mod per
         \<and> per - (dateNow div 1000) mod per \<le> per
         \<and> ((dateNow div 1000) mod per = 0 \<longrightarrow> getRemainingSeconds per dateNow = Finite per)"
proof -
  have now: "0 \<le> dateNow div 1000"
    using assms(2) by (simp add: pos_imp_zdiv_nonneg_iff)
  with assms(1) have "(dateNow div 1000) smod per = (dateNow div 1000) mod per"
    by (intro smod_mod_positive) simp_all
  then have eq: "getRemainingSeconds per dateNow = Finite (per - (dateNow div 1000) mod per)"
    using assms(1) by (simp add: getRemainingSeconds_def)
  have "0 \<le> (dateNow div 1000) mod per" "(dateNow div 1000) mod per < per"
    using assms(1) by simp_all
  with eq show ?thesis by simp
qed

theorem getRemainingSeconds_range_witness:
  "(0 :: int) < 30 \<and> (0 :: int) \<le> 60000 \<and> (60000 div 1000) mod 30 = (0 :: int)
   \<and> getRemainingSeconds 30 60000 = Finite 30
   \<and> getRemainingSeconds 30 59000 = Finite 1"
  using getRemainingSeconds_range [of 30 60000] getRemainingSeconds_range [of 30 59000]
  by simp

section \<open>Properties of the provisioning URI parser\<close>

lemma parseInt_no_digit:
  assumes "\<forall>c \<in> set s. \<not> isDigit c"
  shows "parseInt s = NaN"
proof -
  define t where "t = dropWhile isSpace s"
  define t' where
    "t' = (case t of c # r \<Rightarrow> if c = CHR ''-'' \<or> c = CHR ''+'' then r else t | [] \<Rightarrow> t)"
  have "set t \<subseteq> set s"
    unfolding t_def by (auto dest: set_dropWhileD)
  moreover have "set t' \<subseteq> set t"
    unfolding t'_def by (auto split: list.splits)
  ultimately have "\<forall>c \<in> set t'. \<not> isDigit c"
    using assms by blast
  then have "takeWhile isDigit t' = []"
    by (cases t') auto
  then show ?thesis
    unfolding parseInt_def Let_def t_def [symmetric] t'_def [symmetric] by simp
qed

lemma parse_notNumeric:
  "parseOtpAuthUri platformURL decodePlain uriNotNumeric =
     Inr \<lparr>type = ''totp'', issuer = ''Example'', account = ''alice'', secret = ''ABC123'',
          algorithm = ''SHA1'', digits = NaN, period = NaN\<rparr>"
  by (simp add: parseOtpAuthUri_def platformURL_def urlTable_def uriExample_def
      uriNotNumeric_def urlNotNumeric_def decodePlain_def paramsHas_def paramsGet_def
      split_def orElse_def parseInt_def isDigit_def isSpace_def)

text \<open>
  C2, as the code has it. \<open>parseInt\<close> raises nothing: when the platform parses the URI,
  the scheme is \<open>otpauth\<close> and the path decodes, a \<open>digits\<close> (or \<open>period\<close>) parameter that
  is a non-empty string without a decimal digit gives a record whose \<open>digits\<close> (or
  \<open>period\<close>) field is \<open>NaN\<close>.
\<close>

theorem parseOtpAuthUri_not_numeric:
  assumes "URL uri = Some u"
    and "protocol u = ''otpauth:''"
    and "decodeURIComponent (drop 1 (pathname u)) = Some path"
  shows "(paramsGet (searchParams u) ''digits'' = Some d \<and> d \<noteq> []
            \<and> (\<forall>c \<in> set d. \<not> isDigit c)
          \<longrightarrow> (\<exists>r. parseOtpAuthUri URL decodeURIComponent uri = Inr r \<and> digits r = NaN))
       \<and> (paramsGet (searchParams u) ''period'' = Some p \<and> p \<noteq> []
            \<and> (\<forall>c \<in> set p. \<not> isDigit c)
          \<longrightarrow> (\<exists>r. parseOtpAuthUri URL decodeURIComponent uri = Inr r \<and> period r = NaN))"
  using assms
  by (simp add: parseOtpAuthUri_def Let_def orElse_def parseInt_no_digit)

theorem parseOtpAuthUri_not_numeric_witness:
  "platformURL uriNotNumeric = Some urlNotNumeric
   \<and> protocol urlNotNumeric = ''otpauth:''
   \<and> decodePlain (drop 1 (pathname urlNotNumeric)) = Some ''Example:alice''
   \<and> paramsGet (searchParams urlNotNumeric) ''digits'' = Some ''abc''
   \<and> paramsGet (searchParams urlNotNumeric) ''period'' = Some ''xyz''
   \<and> \<not> isl (parseOtpAuthUri platformURL decodePlain uriNotNumeric)
   \<and> digits (projr (parseOtpAuthUri platformURL decodePlain uriNotNumeric)) = NaN
   \<and> period (projr (parseOtpAuthUri platformURL decodePlain uriNotNumeric)) = NaN"
proof -
  have u: "platformURL uriNotNumeric = Some urlNotNumeric"
    by (simp add: platformURL_def urlTable_def uriExample_def uriNotNumeric_def)
  have pr: "protocol urlNotNumeric = ''otpauth:''"
    by (simp add: urlNotNumeric_def)
  have path: "decodePlain (drop 1 (pathname urlNotNumeric)) = Some ''Example:alice''"
    by (simp add: urlNotNumeric_def decodePlain_def)
  have d: "paramsGet (searchParams urlNotNumeric) ''digits'' = Some ''abc''"
    and p: "paramsGet (searchParams urlNotNumeric) ''period'' = Some ''xyz''"
    by (simp_all add: urlNotNumeric_def paramsGet_def)
  have nd: "\<forall>c \<in> set ''abc''. \<not> isDigit c" and np: "\<forall>c \<in> set ''xyz''. \<not> isDigit c"
    by (simp_all add: isDigit_def)
  from parseOtpAuthUri_not_numeric
         [where URL = platformURL and uri = uriNotNumeric and u = urlNotNumeric
            and decodeURIComponent = decodePlain and path = "''Example:alice''"
            and d = "''abc''" and p = "''xyz''", OF u pr path]
       d p nd np
  have "(\<exists>r. parseOtpAuthUri platformURL decodePlain uriNotNumeric = Inr r \<and> digits r = NaN)
        \<and> (\<exists>r. parseOtpAuthUri platformURL decodePlain uriNotNumeric = Inr r \<and> period r = NaN)"
    by simp
  then have "\<not> isl (parseOtpAuthUri platformURL decodePlain uriNotNumeric)
     \<and> digits (projr (parseOtpAuthUri platformURL decodePlain uriNotNumeric)) = NaN
     \<and> period (projr (parseOtpAuthUri platformURL decodePlain uriNotNumeric)) = NaN"
    by auto
  with u pr path d p show ?thesis
    by simp
qed

text \<open>
  C2, as it is stated, fails: the URI
  \<open>otpauth://totp/Example:alice?secret=ABC123&digits=abc&period=xyz\<close> is parsed without a
  fault, into a record whose \<open>digits\<close> and \<open>period\<close> are \<open>NaN\<close>.
\<close>

theorem parseOtpAuthUri_InvalidUri_counterexample:
  "parseOtpAuthUri platformURL decodePlain uriNotNumeric =
     Inr \<lparr>type = ''totp'', issuer = ''Example'', account = ''alice'', secret = ''ABC123'',
          algorithm = ''SHA1'', digits = NaN, period = NaN\<rparr>
   \<and> parseOtpAuthUri platformURL decodePlain uriNotNumeric \<noteq> Inl InvalidOtpAuthUri"
  using parse_notNumeric by simp

text \<open>
  What the parser makes of the label: \<open>split\<close> cuts at every colon, and the account is
  the second piece, the text between the first colon and the next one.
\<close>

lemma splitLoop_first:
  "splitLoop sep part s =
     (part @ takeWhile (\<lambda>c. c \<noteq> sep) s)
     # (case dropWhile (\<lambda>c. c \<noteq> sep) s of [] \<Rightarrow> [] | c # rest \<Rightarrow> splitLoop sep [] rest)"
  by (induction s arbitrary: part) simp_all

lemma firstTwo_split:
  assumes "sep \<notin> set a"
  shows "firstTwo (split sep (a @ sep # b)) = (Some a, Some (takeWhile (\<lambda>c. c \<noteq> sep) b))"
proof -
  have t: "takeWhile (\<lambda>c. c \<noteq> sep) (a @ sep # b) = a"
    using assms by (simp add: takeWhile_append)
  have d: "dropWhile (\<lambda>c. c \<noteq> sep) (a @ sep # b) = sep # b"
    using assms by (simp add: dropWhile_append)
  have "split sep (a @ sep # b) = a # splitLoop sep [] b"
    unfolding split_def by (subst splitLoop_first) (simp add: t d)
  also have "splitLoop sep [] b = takeWhile (\<lambda>c. c \<noteq> sep) b
     # (case dropWhile (\<lambda>c. c \<noteq> sep) b of [] \<Rightarrow> [] | c # rest \<Rightarrow> splitLoop sep [] rest)"
    by (subst splitLoop_first) simp
  finally show ?thesis by simp
qed

lemma parseOtpAuthUri_label:
  assumes "URL uri = Some u"
    and "protocol u = ''otpauth:''"
    and "decodeURIComponent (drop 1 (pathname u)) = Some path"
  shows "\<exists>r. parseOtpAuthUri URL decodeURIComponent uri = Inr r
           \<and> (CHR '':'' \<notin> set path \<longrightarrow> account r = orElse (Some path) ''Unknown'')
           \<and> (\<forall>a b. path = a @ CHR '':'' # b \<and> CHR '':'' \<notin> set a \<longrightarrow>
                 account r = orElse (Some (takeWhile (\<lambda>c. c \<noteq> CHR '':'') b)) ''Unknown'')"
  using assms by (auto simp: parseOtpAuthUri_def Let_def firstTwo_split)

text \<open>
  C3, at a label with two colons. For
  \<open>otpauth://totp/Example:alice:extra?secret=ABC123\<close> the decoded path is
  \<open>Example:alice:extra\<close>; the account label of the result is \<open>alice\<close>, the text between
  the first and the second colon, and not the remainder \<open>alice:extra\<close>. The example of
  the specification, with one colon, is parsed as the specification says.
\<close>

theorem parseOtpAuthUri_two_colons:
  "parseOtpAuthUri platformURL decodePlain uriTwoColons =
     Inr \<lparr>type = ''totp'', issuer = ''Example'', account = ''alice'', secret = ''ABC123'',
          algorithm = ''SHA1'', digits = Finite 6, period = Finite 30\<rparr>
   \<and> parseOtpAuthUri platformURL decodePlain uriExample =
     Inr \<lparr>type = ''totp'', issuer = ''Example'', account = ''alice@example.com'',
          secret = ''ABC123'', algorithm = ''SHA1'', digits = Finite 6, period = Finite 30\<rparr>"
  by (simp add: parseOtpAuthUri_def platformURL_def urlTable_def uriExample_def
      uriNotNumeric_def uriTwoColons_def urlTwoColons_def urlExample_def decodePlain_def
      paramsHas_def paramsGet_def split_def orElse_def parseInt_def isDigit_def isSpace_def
      decimalValue_def)

section \<open>Properties of the account registry\<close>

lemma findIndex_absent: "(findIndex P xs = - 1) = (\<forall>x \<in> set xs. \<not> P x)"
proof (induction xs)
  case Nil
  show ?case by simp
next
  case (Cons x xs)
  have lower: "- 1 \<le> findIndex P ys" for ys
    by (induction ys) (auto simp: Let_def)
  from Cons lower [of xs] show ?case
    by (auto simp: Let_def)
qed


text \<open>
  C9. An \<open>updateAccount\<close> under an identifier that no stored record has saves nothing:
  the stored array is as before. (The model of the operation has no fault to raise.)
\<close>

theorem updateAccount_unknown_id:
  assumes "Some i \<notin> set (ids stored)"
  shows "updateAccount i updates stored = stored"
proof -
  have "acc ''id'' \<in> set (ids stored)" if "acc \<in> set stored" for acc
    using imageI [OF that, of "\<lambda>acc. acc ''id''"] by (simp add: ids_def)
  with assms have "\<forall>acc \<in> set stored. \<not> acc ''id'' = Some i"
    by metis
  then have "findIndex (\<lambda>acc. acc ''id'' = Some i) stored = - 1"
    by (simp only: findIndex_absent)
  then show ?thesis
    by (simp add: updateAccount_def)
qed

theorem updateAccount_unknown_id_witness:
  "Some (Str ''zz'') \<notin> set (ids [newAccount ''a'', newAccount ''b''])
   \<and> updateAccount (Str ''zz'') (newAccount ''zz'') [newAccount ''a'', newAccount ''b'']
       = [newAccount ''a'', newAccount ''b'']"
proof -
  have "Some (Str ''zz'') \<notin> set (ids [newAccount ''a'', newAccount ''b''])"
    by (simp add: ids_def newAccount_def)
  then show ?thesis
    using updateAccount_unknown_id
      [of "Str ''zz''" "[newAccount ''a'', newAccount ''b'']" "newAccount ''zz''"]
    by simp
qed

subsection \<open>Import\<close>

lemma importData_Success:
  assumes "importData data existing = (Success n k, stored)"
  shows "\<exists>incoming. accounts data = Some (Arr incoming) \<and> truthyVersion (version data)
           \<and> stored = existing
                @ filter (\<lambda>acc. \<not> list_ex (\<lambda>e. e ''id'' = acc ''id'') existing) incoming"
proof (cases "accounts data")
  case None
  with assms show ?thesis by (simp add: importData_def)
next
  case (Some field)
  show ?thesis
  proof (cases field)
    case (Prim v)
    with Some assms show ?thesis
      by (simp add: importData_def split: if_splits)
  next
    case (Arr incoming)
    with Some assms show ?thesis
      by (auto simp: importData_def Let_def split: if_splits)
  qed
qed

lemma importData_Arr:
  assumes "accounts data = Some (Arr incoming)" and "truthyVersion (version data)"
  shows "importData data existing =
           (let newAccounts = filter (\<lambda>acc. \<not> list_ex (\<lambda>e. e ''id'' = acc ''id'') existing) incoming
            in (Success (length newAccounts) (length incoming - length newAccounts),
                existing @ newAccounts))"
  using assms by (simp add: importData_def Let_def)

text \<open>
  The import of an export always succeeds, and into the empty registry it stores the
  exported array as it is.
\<close>

lemma importData_export:
  "\<exists>n. importData (exportData isoNow storedSettings exported) existing
          = (Success n (length exported - n),
             existing @ filter (\<lambda>acc. \<not> list_ex (\<lambda>e. e ''id'' = acc ''id'') existing) exported)"
  by (simp add: importData_def exportData_def Let_def)

lemma importData_roundtrip:
  "importData (exportData isoNow storedSettings exported) []
   = (Success (length exported) 0, exported)"
  by (simp add: importData_def exportData_def Let_def)

text \<open>
  C8. After a successful import of a payload, a second import of the same payload
  imports 0 records, reports every account of the payload as skipped, and saves
  nothing: the stored array is the one the first import left, which begins with the
  records that were there before.
\<close>

theorem importData_idempotent:
  assumes "importData data existing = (Success n k, stored)"
  shows "\<exists>incoming. accounts data = Some (Arr incoming)
           \<and> importData data stored = (Success 0 (length incoming), stored)
           \<and> take (length existing) stored = existing"
proof -
  from importData_Success [OF assms] obtain incoming
    where arr: "accounts data = Some (Arr incoming)"
      and ver: "truthyVersion (version data)"
      and stored: "stored = existing
            @ filter (\<lambda>acc. \<not> list_ex (\<lambda>e. e ''id'' = acc ''id'') existing) incoming"
    by blast
  have "list_ex (\<lambda>e. e ''id'' = acc ''id'') stored" if "acc \<in> set incoming" for acc
  proof (cases "list_ex (\<lambda>e. e ''id'' = acc ''id'') existing")
    case True
    then show ?thesis by (auto simp: stored list_ex_iff)
  next
    case False
    with that have "acc \<in> set stored" by (simp add: stored)
    then show ?thesis by (auto simp: list_ex_iff)
  qed
  then have "filter (\<lambda>acc. \<not> list_ex (\<lambda>e. e ''id'' = acc ''id'') stored) incoming = []"
    by (simp add: filter_empty_conv)
  then have "importData data stored = (Success 0 (length incoming), stored)"
    using arr ver by (simp add: importData_Arr)
  with arr stored show ?thesis
    by simp
qed

lemma import_first:
  "importData exportOfTwo [newAccount ''a''] = (Success 1 1, [newAccount ''a'', newAccount ''b''])"
proof -
  have "newAccount ''a'' ''id'' = Some (Str ''a'')" "newAccount ''b'' ''id'' = Some (Str ''b'')"
    by (simp_all add: newAccount_def)
  then show ?thesis
    by (simp add: importData_def exportOfTwo_def exportData_def)
qed

theorem importData_idempotent_witness:
  "importData exportOfTwo [newAccount ''a''] = (Success 1 1, [newAccount ''a'', newAccount ''b''])
   \<and> importData exportOfTwo [newAccount ''a'', newAccount ''b'']
       = (Success 0 2, [newAccount ''a'', newAccount ''b''])"
proof -
  have "accounts exportOfTwo = Some (Arr [newAccount ''a'', newAccount ''b''])"
    by (simp add: exportOfTwo_def exportData_def)
  with importData_idempotent [OF import_first] import_first show ?thesis
    by simp
qed

text \<open>
  C10. The import tests \<open>version\<close> and \<open>accounts\<close> by truthiness: a \<open>version\<close> (or an
  \<open>accounts\<close>) that is present and falsy fails with the message \<open>Invalid data format\<close>,
  as an absent one does, and saves nothing; with a truthy \<open>version\<close>, an \<open>accounts\<close> that
  is the empty array succeeds with 0 imported, and saves nothing.
\<close>

theorem importData_truthiness:
  "(\<not> truthy v \<longrightarrow>
      importData (data\<lparr>version := Some v\<rparr>) existing = (Failure ''Invalid data format'', existing)
      \<and> importData (data\<lparr>version := Some v\<rparr>) existing
          = importData (data\<lparr>version := None\<rparr>) existing
      \<and> importData (data\<lparr>accounts := Some (Prim v)\<rparr>) existing
          = (Failure ''Invalid data format'', existing)
      \<and> importData (data\<lparr>accounts := Some (Prim v)\<rparr>) existing
          = importData (data\<lparr>accounts := None\<rparr>) existing)
   \<and> (truthyVersion (version data) \<longrightarrow>
      importData (data\<lparr>accounts := Some (Arr [])\<rparr>) existing = (Success 0 0, existing))"
proof (intro conjI impI)
  assume falsy: "\<not> truthy v"
  then have "\<not> truthyVersion (version (data\<lparr>version := Some v\<rparr>))"
    by simp
  then show failed: "importData (data\<lparr>version := Some v\<rparr>) existing
      = (Failure ''Invalid data format'', existing)"
    unfolding importData_def by (simp only: simp_thms if_True)
  have "importData (data\<lparr>version := None\<rparr>) existing
      = (Failure ''Invalid data format'', existing)"
    by (simp add: importData_def)
  with failed show "importData (data\<lparr>version := Some v\<rparr>) existing
      = importData (data\<lparr>version := None\<rparr>) existing"
    by simp
  from falsy have "\<not> truthyAccounts (accounts (data\<lparr>accounts := Some (Prim v)\<rparr>))"
    by simp
  then show failed': "importData (data\<lparr>accounts := Some (Prim v)\<rparr>) existing
      = (Failure ''Invalid data format'', existing)"
    unfolding importData_def by (simp only: simp_thms if_True)
  have "importData (data\<lparr>accounts := None\<rparr>) existing
      = (Failure ''Invalid data format'', existing)"
    by (simp add: importData_def)
  with failed' show "importData (data\<lparr>accounts := Some (Prim v)\<rparr>) existing
      = importData (data\<lparr>accounts := None\<rparr>) existing"
    by simp
next
  assume "truthyVersion (version data)"
  then show "importData (data\<lparr>accounts := Some (Arr [])\<rparr>) existing = (Success 0 0, existing)"
    by (simp add: importData_def)
qed

theorem importData_truthiness_witness:
  "\<not> truthy (Str []) 
   \<and> importData (exportOfTwo\<lparr>version := Some (Str [])\<rparr>) [newAccount ''a'']
       = (Failure ''Invalid data format'', [newAccount ''a''])
   \<and> importData (exportOfTwo\<lparr>version := None\<rparr>) [newAccount ''a'']
       = (Failure ''Invalid data format'', [newAccount ''a''])
   \<and> truthyVersion (version exportOfTwo)
   \<and> importData (exportOfTwo\<lparr>accounts := Some (Arr [])\<rparr>) [newAccount ''a'']
       = (Success 0 0, [newAccount ''a''])"
proof -
  have f: "\<not> truthy (Str [])" by simp
  have t: "truthyVersion (version exportOfTwo)"
    by (simp add: exportOfTwo_def exportData_def)
  from importData_truthiness [of "Str []" exportOfTwo "[newAccount ''a'']"] f t
  have "importData (exportOfTwo\<lparr>version := Some (Str [])\<rparr>) [newAccount ''a'']
          = (Failure ''Invalid data format'', [newAccount ''a''])"
    and "importData (exportOfTwo\<lparr>version := Some (Str [])\<rparr>) [newAccount ''a'']
          = importData (exportOfTwo\<lparr>version := None\<rparr>) [newAccount ''a'']"
    and "importData (exportOfTwo\<lparr>accounts := Some (Arr [])\<rparr>) [newAccount ''a'']
          = (Success 0 0, [newAccount ''a''])"
    by blast+
  with f t show ?thesis
    by (simp del: truthy.simps)
qed

subsection \<open>The invariant of the registry\<close>













subsection \<open>Each operation and the whole invariant\<close>
















end
